theory Spec2Isabelle
  imports Main "HOL-Library.Word"
begin

unbundle bit_operations_syntax

section \<open>Values of the program\<close>

text \<open>
  The program is \<^verbatim>\<open>src/base64converter.py\<close>, one class \<^verbatim>\<open>Base64ConverterApp\<close>
  whose methods are the handlers of a Tk form. A Python \<^verbatim>\<open>bytes\<close> object is a list of
  8-bit words; a Python \<^verbatim>\<open>str\<close> is a list of Unicode code points, each a natural
  number. The text of a \<^verbatim>\<open>str\<close> is empty exactly when the list is \<open>[]\<close>, which is
  what Python's truth test \<^verbatim>\<open>if self.current_b64\<close> asks.
\<close>

type_synonym byte = "8 word"
type_synonym bytes = "byte list"
type_synonym str = "nat list"

text \<open>
  The exceptions that the calls into the file system, the codec and the clipboard raise.
  All of them are subclasses of Python's \<^verbatim>\<open>Exception\<close>, so the handler
  \<^verbatim>\<open>except Exception as e\<close> catches each of them. \<open>OSError\<close> carries its errno.
\<close>

datatype exn =
    OSError nat
  | ValueError
  | MemoryError
  | UnicodeDecodeError
  | PyperclipException

section \<open>The library calls: \<^verbatim>\<open>base64.b64encode\<close> and \<^verbatim>\<open>bytes.decode("utf-8")\<close>\<close>

text \<open>
  \<^verbatim>\<open>base64.b64encode\<close> belongs to Python's standard library. It is the Base64
  encoding of RFC 4648, section 4, with the standard alphabet and no line breaks: three
  bytes are 24 bits, cut into four 6-bit numbers, each written as the character at that
  place of the alphabet; a last group of one or two bytes is filled with zero bits and
  the output completed with \<^verbatim>\<open>=\<close>. The result is a \<^verbatim>\<open>bytes\<close> object.
\<close>

definition b64_table :: bytes where
  "b64_table =
     map of_char ''ABCDEFGHIJKLMNOPQRSTUVWXYZabcdefghijklmnopqrstuvwxyz0123456789+/''"

definition b64_pad :: byte where
  "b64_pad = of_char CHR ''=''"

definition enc6 :: "byte \<Rightarrow> byte" where
  "enc6 i = b64_table ! unat i"

text \<open>
  The four 6-bit numbers of a group of three bytes \<open>b0 b1 b2\<close>: the top six bits of
  \<open>b0\<close>; its low two bits followed by the top four of \<open>b1\<close>; the low four bits
  of \<open>b1\<close> followed by the top two of \<open>b2\<close>; the low six bits of \<open>b2\<close>.
\<close>

definition sextet0 :: "byte \<Rightarrow> byte" where
  "sextet0 b0 = drop_bit 2 b0"

definition sextet1 :: "byte \<Rightarrow> byte \<Rightarrow> byte" where
  "sextet1 b0 b1 = push_bit 4 (b0 AND 3) OR drop_bit 4 b1"

definition sextet2 :: "byte \<Rightarrow> byte \<Rightarrow> byte" where
  "sextet2 b1 b2 = push_bit 2 (b1 AND 15) OR drop_bit 6 b2"

definition sextet3 :: "byte \<Rightarrow> byte" where
  "sextet3 b2 = b2 AND 63"

text \<open>
  A last group of one or two bytes is completed with zero bits, here the byte \<open>0\<close>
  in the place of each missing byte, and only the characters that hold bits of the
  input are written; \<^verbatim>\<open>=\<close> stands for the others.
\<close>

fun b64encode :: "bytes \<Rightarrow> bytes" where
  "b64encode [] = []"
| "b64encode [b0] =
     [enc6 (sextet0 b0), enc6 (sextet1 b0 0), b64_pad, b64_pad]"
| "b64encode [b0, b1] =
     [enc6 (sextet0 b0), enc6 (sextet1 b0 b1), enc6 (sextet2 b1 0), b64_pad]"
| "b64encode (b0 # b1 # b2 # rest) =
     [enc6 (sextet0 b0), enc6 (sextet1 b0 b1), enc6 (sextet2 b1 b2), enc6 (sextet3 b2)]
     @ b64encode rest"

text \<open>
  \<^verbatim>\<open>bytes.decode("utf-8")\<close> is the strict UTF-8 decoder: it reads one well-formed
  sequence of one to four bytes after the other and raises \<^verbatim>\<open>UnicodeDecodeError\<close>
  at a byte that opens none, at a continuation byte outside the range its lead byte
  allows (overlong forms, surrogates, values above U+10FFFF), and at a sequence cut
  short by the end of the input.
\<close>

definition utf8_len :: "byte \<Rightarrow> nat" where
  "utf8_len b =
     (if b < 0x80 then 1
      else if 0xC2 \<le> b \<and> b \<le> 0xDF then 2
      else if 0xE0 \<le> b \<and> b \<le> 0xEF then 3
      else if 0xF0 \<le> b \<and> b \<le> 0xF4 then 4
      else 0)"

definition utf8_second_ok :: "byte \<Rightarrow> byte \<Rightarrow> bool" where
  "utf8_second_ok b c =
     ((if b = 0xE0 then 0xA0 else if b = 0xF0 then 0x90 else 0x80) \<le> c \<and>
      c \<le> (if b = 0xED then 0x9F else if b = 0xF4 then 0x8F else 0xBF))"

definition utf8_cont_ok :: "byte \<Rightarrow> bool" where
  "utf8_cont_ok c = (0x80 \<le> c \<and> c \<le> 0xBF)"

definition utf8_seq_ok :: "byte \<Rightarrow> bytes \<Rightarrow> bool" where
  "utf8_seq_ok b cs =
     (case cs of
        [] \<Rightarrow> True
      | c # cs' \<Rightarrow> utf8_second_ok b c \<and> list_all utf8_cont_ok cs')"

definition utf8_lead_bits :: "byte \<Rightarrow> nat" where
  "utf8_lead_bits b =
     (if b < 0x80 then unat b
      else if b < 0xE0 then unat (b AND 0x1F)
      else if b < 0xF0 then unat (b AND 0x0F)
      else unat (b AND 0x07))"

definition utf8_cp :: "byte \<Rightarrow> bytes \<Rightarrow> nat" where
  "utf8_cp b cs = foldl (\<lambda>a c. a * 64 + unat (c AND 0x3F)) (utf8_lead_bits b) cs"

fun utf8_decode :: "bytes \<Rightarrow> exn + str" where
  "utf8_decode [] = Inr []"
| "utf8_decode (b # rest) =
     (let n = utf8_len b; cs = take (n - 1) rest
      in if n = 0 \<or> length cs < n - 1 \<or> \<not> utf8_seq_ok b cs then Inl UnicodeDecodeError
         else (case utf8_decode (drop (n - 1) rest) of
                 Inl e \<Rightarrow> Inl e
               | Inr s \<Rightarrow> Inr (utf8_cp b cs # s)))"

section \<open>Standard Base64 decoding\<close>

text \<open>
  The program never decodes. The decoder below is the reference the round trip is
  measured against: RFC 4648, section 4, read strictly. The text is cut into groups of
  four characters of the alphabet; only the last group may end in one or two \<^verbatim>\<open>=\<close>;
  any other text is rejected with \<open>None\<close>.
\<close>

definition dec6 :: "nat \<Rightarrow> byte option" where
  "dec6 c =
     (if 65 \<le> c \<and> c \<le> 90 then Some (of_nat (c - 65))
      else if 97 \<le> c \<and> c \<le> 122 then Some (of_nat (c - 71))
      else if 48 \<le> c \<and> c \<le> 57 then Some (of_nat (c + 4))
      else if c = 43 then Some 62
      else if c = 47 then Some 63
      else None)"

definition dec_group :: "nat \<Rightarrow> nat \<Rightarrow> nat \<Rightarrow> nat \<Rightarrow> bytes option" where
  "dec_group c0 c1 c2 c3 =
     (case (dec6 c0, dec6 c1, dec6 c2, dec6 c3) of
        (Some i0, Some i1, Some i2, Some i3) \<Rightarrow>
          Some [push_bit 2 i0 OR drop_bit 4 i1,
                push_bit 4 i1 OR drop_bit 2 i2,
                push_bit 6 i2 OR i3]
      | _ \<Rightarrow> None)"

definition dec_last :: "nat \<Rightarrow> nat \<Rightarrow> nat \<Rightarrow> nat \<Rightarrow> bytes option" where
  "dec_last c0 c1 c2 c3 =
     (if c2 = 61 \<and> c3 = 61 then
        (case (dec6 c0, dec6 c1) of
           (Some i0, Some i1) \<Rightarrow> Some [push_bit 2 i0 OR drop_bit 4 i1]
         | _ \<Rightarrow> None)
      else if c3 = 61 then
        (case (dec6 c0, dec6 c1, dec6 c2) of
           (Some i0, Some i1, Some i2) \<Rightarrow>
             Some [push_bit 2 i0 OR drop_bit 4 i1, push_bit 4 i1 OR drop_bit 2 i2]
         | _ \<Rightarrow> None)
      else dec_group c0 c1 c2 c3)"

fun b64decode :: "str \<Rightarrow> bytes option" where
  "b64decode [] = Some []"
| "b64decode [c0, c1, c2, c3] = dec_last c0 c1 c2 c3"
| "b64decode (c0 # c1 # c2 # c3 # rest) =
     (case dec_group c0 c1 c2 c3 of
        None \<Rightarrow> None
      | Some bs \<Rightarrow> (case b64decode rest of None \<Rightarrow> None | Some bs' \<Rightarrow> Some (bs @ bs')))"
| "b64decode _ = None"

section \<open>The form and its handlers\<close>

text \<open>
  The state of \<^verbatim>\<open>Base64ConverterApp\<close>: the \<^verbatim>\<open>StringVar\<close> behind the read-only path
  entry, the attribute \<^verbatim>\<open>current_b64\<close>, the \<^verbatim>\<open>state\<close> option of the three action
  buttons, the contents of the \<^verbatim>\<open>Text\<close> widget and the text of the status label.
\<close>

datatype btn_state = Normal | Disabled

text \<open>
  The status label shows one of five messages. The message is kept with the values it
  is formatted from rather than as formatted text: \<open>Ready p\<close> and \<open>Saved p\<close> show
  the base name of the path \<open>p\<close>, \<open>Converted n m\<close> shows \<open>n\<close> bytes in KB and
  \<open>m\<close> characters.
\<close>

datatype status_msg =
    SelectFile
  | Ready str
  | Converted nat nat
  | Copied
  | Saved str

text \<open>
  The calls a handler makes to the world outside the object, in the order it makes
  them: the two file dialogs, reading and writing a file, the clipboard and the error
  box of \<^verbatim>\<open>messagebox.showerror\<close> with its title and the exception it prints.
\<close>

datatype err_title = ConversionError | SaveError

datatype effect =
    AskOpenFilename
  | ReadFile str
  | ClipboardCopy str
  | AskSaveAsFilename
  | WriteFile str str
  | ShowError err_title exn

text \<open>
  The field \<open>trace\<close> is not an attribute of the Python object. It records the calls
  to the outside world made so far, so that a statement can say which calls a handler
  made and which it did not.
\<close>

record app =
  file_path :: str
  current_b64 :: str
  convert_btn :: btn_state
  copy_btn :: btn_state
  save_btn :: btn_state
  output_text :: str
  status :: status_msg
  trace :: "effect list"

text \<open>
  What the outside world answers during one handler call. A dialog returns the chosen
  path, or the empty string when the user cancels. \<open>read_file p\<close> is
  \<^verbatim>\<open>with open(p, "rb") as f: data = f.read()\<close>: the bytes, or the exception raised.
  \<open>write_file p t\<close> is \<^verbatim>\<open>with open(p, "w", encoding="utf-8") as f: f.write(t)\<close> and
  \<open>clipboard_copy t\<close> is \<^verbatim>\<open>pyperclip.copy(t)\<close>: \<open>None\<close> when the call returns,
  the exception when it raises.
\<close>

record env =
  askopenfilename :: str
  read_file :: "str \<Rightarrow> exn + bytes"
  clipboard_copy :: "str \<Rightarrow> exn option"
  asksaveasfilename :: str
  write_file :: "str \<Rightarrow> str \<Rightarrow> exn option"

text \<open>
  A handler takes the state and returns the state it leaves behind together with
  \<open>Inr ()\<close> when it returns, or \<open>Inl e\<close> when the exception \<open>e\<close> leaves it.
  Assignments made before an exception is raised stay made.
\<close>

type_synonym handler = "app \<Rightarrow> (exn + unit) \<times> app"

definition emit :: "effect \<Rightarrow> app \<Rightarrow> app" where
  "emit x s = s\<lparr>trace := trace s @ [x]\<rparr>"

definition update_status :: "status_msg \<Rightarrow> app \<Rightarrow> app" where
  "update_status message s = s\<lparr>status := message\<rparr>"

text \<open>
  \<^verbatim>\<open>try: body  except Exception as e: handler\<close>. Every value of \<open>exn\<close> is an
  \<^verbatim>\<open>Exception\<close>, so the handler runs for each of them, in the state the body left.
\<close>

definition try_except :: "handler \<Rightarrow> (exn \<Rightarrow> handler) \<Rightarrow> handler" where
  "try_except body except s =
     (case body s of
        (Inl e, s') \<Rightarrow> except e s'
      | (Inr u, s') \<Rightarrow> (Inr u, s'))"

text \<open>\<^verbatim>\<open>__init__\<close> and \<^verbatim>\<open>setup_ui\<close>: no path, no encoded text, the three buttons disabled.\<close>

definition init :: app where
  "init = \<lparr>file_path = [], current_b64 = [], convert_btn = Disabled, copy_btn = Disabled,
           save_btn = Disabled, output_text = [], status = SelectFile, trace = []\<rparr>"

text \<open>
  \<^verbatim>\<open>output_text.delete(1.0, tk.END)\<close> empties the widget and
  \<^verbatim>\<open>output_text.insert(1.0, t)\<close> puts \<open>t\<close> before what the widget holds.
\<close>

definition text_delete_all :: "app \<Rightarrow> app" where
  "text_delete_all s = s\<lparr>output_text := []\<rparr>"

definition text_insert_start :: "str \<Rightarrow> app \<Rightarrow> app" where
  "text_insert_start t s = s\<lparr>output_text := t @ output_text s\<rparr>"

definition browse_file :: "env \<Rightarrow> handler" where
  "browse_file w s =
     (let s1 = emit AskOpenFilename s;
          path = askopenfilename w
      in if path \<noteq> [] then
           (let s2 = s1\<lparr>file_path := path\<rparr>;
                s3 = s2\<lparr>convert_btn := Normal\<rparr>
            in (Inr (), update_status (Ready path) s3))
         else (Inr (), s1))"

text \<open>The body of the \<^verbatim>\<open>try\<close> of \<^verbatim>\<open>convert_file\<close>, lines 156 to 170.\<close>

definition convert_body :: "env \<Rightarrow> handler" where
  "convert_body w s =
     (let path = file_path s;
          s1 = emit (ReadFile path) s
      in case read_file w path of
           Inl e \<Rightarrow> (Inl e, s1)
         | Inr data \<Rightarrow>
             (case utf8_decode (b64encode data) of
                Inl e \<Rightarrow> (Inl e, s1)
              | Inr t \<Rightarrow>
                  (let s2 = s1\<lparr>current_b64 := t\<rparr>;
                       s3 = text_delete_all s2;
                       s4 = text_insert_start (current_b64 s3) s3;
                       s5 = s4\<lparr>copy_btn := Normal\<rparr>;
                       s6 = s5\<lparr>save_btn := Normal\<rparr>
                   in (Inr (),
                       update_status (Converted (length data) (length (current_b64 s6))) s6))))"

definition convert_file :: "env \<Rightarrow> handler" where
  "convert_file w =
     try_except (convert_body w)
       (\<lambda>e s. (Inr (), emit (ShowError ConversionError e) s))"

definition copy_to_clipboard :: "env \<Rightarrow> handler" where
  "copy_to_clipboard w s =
     (if current_b64 s \<noteq> [] then
        (let s1 = emit (ClipboardCopy (current_b64 s)) s
         in case clipboard_copy w (current_b64 s) of
              Some e \<Rightarrow> (Inl e, s1)
            | None \<Rightarrow> (Inr (), update_status Copied s1))
      else (Inr (), s))"

text \<open>The body of the \<^verbatim>\<open>try\<close> of \<^verbatim>\<open>save_base64\<close>, lines 190 to 192.\<close>

definition save_body :: "env \<Rightarrow> str \<Rightarrow> handler" where
  "save_body w save_path s =
     (let s1 = emit (WriteFile save_path (current_b64 s)) s
      in case write_file w save_path (current_b64 s) of
           Some e \<Rightarrow> (Inl e, s1)
         | None \<Rightarrow> (Inr (), update_status (Saved save_path) s1))"

definition save_base64 :: "env \<Rightarrow> handler" where
  "save_base64 w s =
     (if current_b64 s = [] then (Inr (), s)
      else
        (let s1 = emit AskSaveAsFilename s;
             save_path = asksaveasfilename w
         in if save_path \<noteq> [] then
              try_except (save_body w save_path)
                (\<lambda>e s. (Inr (), emit (ShowError SaveError e) s)) s1
            else (Inr (), s1)))"

section \<open>Runs of the form\<close>

text \<open>
  The user drives the form: each step is one handler call, with the answers the
  outside world gives during that call. A handler that raises leaves its exception to
  Tk's event loop, which reports it and goes on with the state the handler left. The
  steps are not restricted to the buttons that are enabled.

  Beside the state, a run carries the bytes of the file of the most recent successful
  conversion: a \<open>Convert\<close> step whose file was read. This second component is not
  part of the program; statements about the stored text refer to it.
\<close>

datatype action = Browse | Convert | Copy | Save

fun handle :: "action \<Rightarrow> env \<Rightarrow> handler" where
  "handle Browse w = browse_file w"
| "handle Convert w = convert_file w"
| "handle Copy w = copy_to_clipboard w"
| "handle Save w = save_base64 w"

fun converted :: "action \<Rightarrow> env \<Rightarrow> app \<Rightarrow> bytes option \<Rightarrow> bytes option" where
  "converted Convert w s g =
     (case read_file w (file_path s) of Inr data \<Rightarrow> Some data | Inl e \<Rightarrow> g)"
| "converted a w s g = g"

fun run :: "(action \<times> env) list \<Rightarrow> app \<times> bytes option \<Rightarrow> app \<times> bytes option" where
  "run [] c = c"
| "run ((a, w) # steps) (s, g) = run steps (snd (handle a w s), converted a w s g)"

text \<open>The text of the Base64 encoding of \<open>data\<close>: one code point for each byte.\<close>

definition b64_text :: "bytes \<Rightarrow> str" where
  "b64_text data = map unat (b64encode data)"

text \<open>
  What holds of every state a run reaches: the stored text is the encoding of the last
  file converted, or empty when there is none; the display shows the stored text; and
  the convert button is enabled only when a path has been chosen.
\<close>

definition form_inv :: "app \<times> bytes option \<Rightarrow> bool" where
  "form_inv c =
     (case c of (s, g) \<Rightarrow>
        current_b64 s = (case g of None \<Rightarrow> [] | Some data \<Rightarrow> b64_text data) \<and>
        output_text s = current_b64 s \<and>
        (convert_btn s = Normal \<longrightarrow> file_path s \<noteq> []))"

subsection \<open>Concrete worlds\<close>

text \<open>
  Two worlds to run the handlers in. In \<open>demo_env\<close> the user picks \<^verbatim>\<open>/tmp/a\<close>,
  a file holding the three bytes \<^verbatim>\<open>Man\<close>, and every call succeeds; \<open>other_env\<close> is
  the same with the two bytes \<^verbatim>\<open>hi\<close> in the file. In \<open>broken_env\<close> no file can be
  read or written and the clipboard is not available.
\<close>

definition demo_path :: str where
  "demo_path = [47, 116, 109, 112, 47, 97]"

definition demo_env :: env where
  "demo_env =
     \<lparr>askopenfilename = demo_path,
      read_file = (\<lambda>p. if p = demo_path then Inr [77, 97, 110] else Inl (OSError 2)),
      clipboard_copy = (\<lambda>t. None),
      asksaveasfilename = [47, 116, 109, 112, 47, 98],
      write_file = (\<lambda>p t. None)\<rparr>"

definition other_env :: env where
  "other_env =
     \<lparr>askopenfilename = demo_path,
      read_file = (\<lambda>p. if p = demo_path then Inr [104, 105] else Inl (OSError 2)),
      clipboard_copy = (\<lambda>t. None),
      asksaveasfilename = [47, 116, 109, 112, 47, 98],
      write_file = (\<lambda>p t. None)\<rparr>"

definition broken_env :: env where
  "broken_env =
     \<lparr>askopenfilename = demo_path,
      read_file = (\<lambda>p. Inl (OSError 2)),
      clipboard_copy = (\<lambda>t. Some PyperclipException),
      asksaveasfilename = [47, 116, 109, 112, 47, 98],
      write_file = (\<lambda>p t. Some (OSError 13))\<rparr>"

text \<open>The form after the user has picked the file, and after converting it.\<close>

definition picked :: app where
  "picked = snd (browse_file demo_env init)"

definition shown :: app where
  "shown = snd (convert_file demo_env picked)"

definition shown_other :: app where
  "shown_other = snd (convert_file other_env picked)"

definition demo_steps :: "(action \<times> env) list" where
  "demo_steps =
     [(Browse, demo_env), (Convert, demo_env), (Copy, broken_env), (Save, broken_env),
      (Convert, broken_env)]"

section \<open>Base64: bits, alphabet, round trip\<close>

lemma six_bit_cases: "unat (i::byte) < 64 \<Longrightarrow> i \<in> set (map of_nat [0..<64])"
proof -
  assume "unat i < 64"
  then have "unat i \<in> set [0..<64]" by simp
  then have "of_nat (unat i) \<in> set (map of_nat [0..<64] :: byte list)"
    unfolding set_map by (rule imageI)
  then show ?thesis by simp
qed

text \<open>
  Each of the 64 characters of the alphabet is ASCII, differs from \<^verbatim>\<open>=\<close> and is
  decoded to the place it has in the alphabet.
\<close>

lemma enc6_table:
  "\<forall>i \<in> set (map of_nat [0..<64]).
     dec6 (unat (enc6 i)) = Some i \<and> enc6 i < 0x80 \<and> unat (enc6 i) \<noteq> 61"
  by (simp add: upt_rec enc6_def b64_table_def dec6_def)

lemma dec6_enc6: "unat i < 64 \<Longrightarrow> dec6 (unat (enc6 i)) = Some i"
  using enc6_table six_bit_cases by blast

lemma enc6_ascii: "unat i < 64 \<Longrightarrow> enc6 i < 0x80"
  using enc6_table six_bit_cases by blast

lemma enc6_not_pad: "unat i < 64 \<Longrightarrow> unat (enc6 i) \<noteq> 61"
  using enc6_table six_bit_cases by blast

lemma and3: "(x::byte) AND 3 = take_bit 2 x"
  by (simp add: take_bit_eq_mask mask_eq_exp_minus_1)

lemma and15: "(x::byte) AND 15 = take_bit 4 x"
  by (simp add: take_bit_eq_mask mask_eq_exp_minus_1)

lemma and63: "(x::byte) AND 63 = take_bit 6 x"
  by (simp add: take_bit_eq_mask mask_eq_exp_minus_1)

lemmas low_bits = and3 and15 and63

lemma lt64I: "take_bit 6 (x::byte) = x \<Longrightarrow> unat x < 64"
proof -
  assume "take_bit 6 x = x"
  then have "x AND mask 6 = x" by (simp add: take_bit_eq_mask)
  then have "x < 2 ^ 6" using mask_eq_iff_w2p[of 6 x] by (simp add: word_size)
  then show ?thesis by (simp add: word_less_nat_alt)
qed

lemma bit8: "bit (b::byte) n \<Longrightarrow> n < 8"
  using bit_imp_le_length[of b n] by simp

text \<open>Two bytes are equal when they agree at each of their eight bits.\<close>

lemma byte_eqI:
  assumes agree: "\<And>n. n \<in> {0, 1, 2, 3, 4, 5, 6, 7::nat} \<Longrightarrow> bit (a::byte) n = bit b n"
  shows "a = b"
proof (rule bit_word_eqI)
  fix n
  assume "n < LENGTH(8)"
  then have "n < 8" by simp
  then have "n \<in> {0, 1, 2, 3, 4, 5, 6, 7}" by (simp, arith)
  then show "bit a n = bit b n" by (rule agree)
qed

lemmas bit_numerals = numeral_2_eq_2[symmetric] numeral_3_eq_3[symmetric]

lemmas sextet_defs = sextet0_def sextet1_def sextet2_def sextet3_def

lemma six0: "unat (sextet0 b0) < 64"
  unfolding sextet_defs
  by (rule lt64I, rule byte_eqI) (auto simp: bit_simps low_bits bit_numerals dest: bit8)

lemma six1: "unat (sextet1 b0 b1) < 64"
  unfolding sextet_defs
  by (rule lt64I, rule byte_eqI) (auto simp: bit_simps low_bits bit_numerals dest: bit8)

lemma six2: "unat (sextet2 b1 b2) < 64"
  unfolding sextet_defs
  by (rule lt64I, rule byte_eqI) (auto simp: bit_simps low_bits bit_numerals dest: bit8)

lemma six3: "unat (sextet3 b2) < 64"
  unfolding sextet_defs
  by (rule lt64I, rule byte_eqI) (auto simp: bit_simps low_bits bit_numerals dest: bit8)

lemmas six_bit = six0 six1 six2 six3

text \<open>The decoder's three bytes are the encoder's: no bit is lost or moved.\<close>

lemma join0: "push_bit 2 (sextet0 b0) OR drop_bit 4 (sextet1 b0 b1) = b0"
  unfolding sextet_defs
  by (rule byte_eqI) (auto simp: bit_simps low_bits bit_numerals dest: bit8)

lemma join1: "push_bit 4 (sextet1 b0 b1) OR drop_bit 2 (sextet2 b1 b2) = b1"
  unfolding sextet_defs
  by (rule byte_eqI) (auto simp: bit_simps low_bits bit_numerals dest: bit8)

lemma join2: "push_bit 6 (sextet2 b1 b2) OR sextet3 b2 = b2"
  unfolding sextet_defs
  by (rule byte_eqI) (auto simp: bit_simps low_bits bit_numerals dest: bit8)

lemmas join = join0 join1 join2

lemma dec_group_enc:
  "dec_group (unat (enc6 (sextet0 b0))) (unat (enc6 (sextet1 b0 b1)))
             (unat (enc6 (sextet2 b1 b2))) (unat (enc6 (sextet3 b2))) = Some [b0, b1, b2]"
  by (simp add: dec_group_def dec6_enc6 six_bit join)

lemma dec_last_full:
  "dec_last (unat (enc6 (sextet0 b0))) (unat (enc6 (sextet1 b0 b1)))
            (unat (enc6 (sextet2 b1 b2))) (unat (enc6 (sextet3 b2))) = Some [b0, b1, b2]"
  by (simp add: dec_last_def dec_group_enc enc6_not_pad six_bit)

lemma unat_pad: "unat b64_pad = 61"
  by (simp add: b64_pad_def)

lemma dec_last_two:
  "dec_last (unat (enc6 (sextet0 b0))) (unat (enc6 (sextet1 b0 b1)))
            (unat (enc6 (sextet2 b1 0))) (unat b64_pad) = Some [b0, b1]"
  by (simp add: dec_last_def unat_pad dec6_enc6 enc6_not_pad six_bit join)

lemma dec_last_one:
  "dec_last (unat (enc6 (sextet0 b0))) (unat (enc6 (sextet1 b0 0)))
            (unat b64_pad) (unat b64_pad) = Some [b0]"
  by (simp add: dec_last_def unat_pad dec6_enc6 six_bit join)

lemma b64encode_Nil_iff: "b64encode bs = [] \<longleftrightarrow> bs = []"
  by (induction bs rule: b64encode.induct) simp_all

lemma b64decode_b64encode: "b64decode (map unat (b64encode bs)) = Some bs"
proof (induction bs rule: b64encode.induct)
  case 1
  show ?case by simp
next
  case (2 b0)
  show ?case by (simp add: dec_last_one)
next
  case (3 b0 b1)
  show ?case by (simp add: dec_last_two)
next
  case (4 b0 b1 b2 rest)
  show ?case
  proof (cases "b64encode rest")
    case Nil
    then have "rest = []" by (simp add: b64encode_Nil_iff)
    then show ?thesis by (simp add: dec_last_full)
  next
    case (Cons c cs)
    with 4 show ?thesis by (simp add: dec_group_enc)
  qed
qed

lemma b64encode_ascii: "\<forall>c \<in> set (b64encode bs). c < 0x80"
  by (induction bs rule: b64encode.induct) (simp_all add: enc6_ascii six_bit b64_pad_def)

lemma length_b64encode: "length (b64encode bs) = 4 * ((length bs + 2) div 3)"
  by (induction bs rule: b64encode.induct) (simp_all, presburger)

text \<open>On ASCII bytes the UTF-8 decoder never fails and gives one code point per byte.\<close>

lemma utf8_decode_ascii:
  "\<forall>c \<in> set bs. c < 0x80 \<Longrightarrow> utf8_decode bs = Inr (map unat bs)"
  by (induction bs) (simp_all add: utf8_len_def utf8_seq_ok_def utf8_cp_def utf8_lead_bits_def)

lemma utf8_decode_b64encode: "utf8_decode (b64encode data) = Inr (b64_text data)"
  unfolding b64_text_def by (rule utf8_decode_ascii) (rule b64encode_ascii)

lemma b64encode_Man: "b64encode [77, 97, 110] = [84, 87, 70, 117]"
  by (simp add: enc6_def b64_table_def sextet_defs)

lemma b64_text_Man: "b64_text [77, 97, 110] = [84, 87, 70, 117]"
  unfolding b64_text_def b64encode_Man by simp

lemma b64encode_hi: "b64encode [104, 105] = [97, 71, 107, 61]"
  by (simp add: enc6_def b64_table_def sextet_defs b64_pad_def)

lemma b64_text_hi: "b64_text [104, 105] = [97, 71, 107, 61]"
  unfolding b64_text_def b64encode_hi by simp

section \<open>The handlers, call by call\<close>

lemma convert_file_read:
  assumes "read_file w (file_path s) = Inr data"
  shows "convert_file w s =
           (Inr (), s\<lparr>current_b64 := b64_text data, copy_btn := Normal, save_btn := Normal,
                      output_text := b64_text data,
                      status := Converted (length data) (length (b64_text data)),
                      trace := trace s @ [ReadFile (file_path s)]\<rparr>)"
  using assms
  by (simp add: convert_file_def try_except_def convert_body_def utf8_decode_b64encode
        emit_def update_status_def text_delete_all_def text_insert_start_def)

lemma convert_file_fail:
  assumes "read_file w (file_path s) = Inl e"
  shows "convert_file w s =
           (Inr (), s\<lparr>trace := trace s @ [ReadFile (file_path s), ShowError ConversionError e]\<rparr>)"
  using assms
  by (simp add: convert_file_def try_except_def convert_body_def emit_def)

lemma convert_file_returns: "fst (convert_file w s) = Inr ()"
  by (cases "read_file w (file_path s)") (simp_all add: convert_file_read convert_file_fail)

lemma save_base64_returns: "fst (save_base64 w s) = Inr ()"
  by (simp add: save_base64_def try_except_def save_body_def Let_def split: option.splits)

lemma save_base64_fail:
  assumes "current_b64 s \<noteq> []" and "asksaveasfilename w \<noteq> []"
    and "write_file w (asksaveasfilename w) (current_b64 s) = Some e"
  shows "save_base64 w s =
           (Inr (), s\<lparr>trace := trace s @ [AskSaveAsFilename,
                        WriteFile (asksaveasfilename w) (current_b64 s), ShowError SaveError e]\<rparr>)"
  using assms
  by (simp add: save_base64_def try_except_def save_body_def emit_def Let_def)

text \<open>
  \<^verbatim>\<open>copy_to_clipboard\<close> has no \<^verbatim>\<open>try\<close>: an exception of the clipboard leaves it.
\<close>

lemma copy_to_clipboard_raises:
  "current_b64 s \<noteq> [] \<Longrightarrow> clipboard_copy w (current_b64 s) = Some e \<Longrightarrow>
     fst (copy_to_clipboard w s) = Inl e"
  by (simp add: copy_to_clipboard_def Let_def)

lemma copy_frame:
  "current_b64 (snd (copy_to_clipboard w s)) = current_b64 s \<and>
   file_path (snd (copy_to_clipboard w s)) = file_path s \<and>
   convert_btn (snd (copy_to_clipboard w s)) = convert_btn s \<and>
   copy_btn (snd (copy_to_clipboard w s)) = copy_btn s \<and>
   save_btn (snd (copy_to_clipboard w s)) = save_btn s \<and>
   output_text (snd (copy_to_clipboard w s)) = output_text s"
  by (simp add: copy_to_clipboard_def emit_def update_status_def Let_def split: option.splits)

lemma save_frame:
  "current_b64 (snd (save_base64 w s)) = current_b64 s \<and>
   file_path (snd (save_base64 w s)) = file_path s \<and>
   convert_btn (snd (save_base64 w s)) = convert_btn s \<and>
   copy_btn (snd (save_base64 w s)) = copy_btn s \<and>
   save_btn (snd (save_base64 w s)) = save_btn s \<and>
   output_text (snd (save_base64 w s)) = output_text s"
  by (simp add: save_base64_def try_except_def save_body_def emit_def update_status_def Let_def
        split: option.splits)

lemma browse_file_picked:
  "askopenfilename w \<noteq> [] \<Longrightarrow>
     browse_file w s =
       (Inr (), s\<lparr>file_path := askopenfilename w, convert_btn := Normal,
                  status := Ready (askopenfilename w), trace := trace s @ [AskOpenFilename]\<rparr>)"
  by (simp add: browse_file_def emit_def update_status_def Let_def)

lemma browse_file_cancelled:
  "askopenfilename w = [] \<Longrightarrow>
     browse_file w s = (Inr (), s\<lparr>trace := trace s @ [AskOpenFilename]\<rparr>)"
  by (simp add: browse_file_def emit_def Let_def)

section \<open>The invariant of the form\<close>

lemma form_inv_init: "form_inv (init, None)"
  by (simp add: form_inv_def init_def)

lemma form_inv_handle:
  assumes i: "form_inv (s, g)"
  shows "form_inv (snd (handle a w s), converted a w s g)"
proof (cases a)
  case Browse
  show ?thesis
  proof (cases "askopenfilename w = []")
    case True
    with i Browse show ?thesis by (simp add: form_inv_def browse_file_cancelled)
  next
    case False
    with i Browse show ?thesis by (simp add: form_inv_def browse_file_picked)
  qed
next
  case Convert
  show ?thesis
  proof (cases "read_file w (file_path s)")
    case (Inl e)
    with i Convert show ?thesis by (simp add: form_inv_def convert_file_fail)
  next
    case (Inr data)
    with i Convert show ?thesis by (simp add: form_inv_def convert_file_read)
  qed
next
  case Copy
  with i copy_frame[of w s] show ?thesis by (simp add: form_inv_def)
next
  case Save
  with i save_frame[of w s] show ?thesis by (simp add: form_inv_def)
qed

lemma form_inv_run: "form_inv c \<Longrightarrow> form_inv (run steps c)"
proof (induction steps arbitrary: c)
  case Nil
  then show ?case by simp
next
  case (Cons step steps)
  obtain a w where step: "step = (a, w)" by (cases step)
  obtain s g where c: "c = (s, g)" by (cases c)
  from Cons.prems have "form_inv (snd (handle a w s), converted a w s g)"
    unfolding c by (rule form_inv_handle)
  then have "form_inv (run steps (snd (handle a w s), converted a w s g))"
    by (rule Cons.IH)
  then show ?case by (simp add: step c)
qed

lemma form_inv_reachable: "form_inv (run steps (init, None))"
  by (rule form_inv_run) (rule form_inv_init)

section \<open>The concrete worlds, evaluated\<close>

lemma picked_eq:
  "picked = \<lparr>file_path = demo_path, current_b64 = [], convert_btn = Normal,
            copy_btn = Disabled, save_btn = Disabled, output_text = [],
            status = Ready demo_path, trace = [AskOpenFilename]\<rparr>"
  by (simp add: picked_def browse_file_picked demo_env_def demo_path_def init_def)

lemma read_demo: "read_file demo_env (file_path picked) = Inr [77, 97, 110]"
  by (simp add: picked_eq demo_env_def)

lemma read_other: "read_file other_env (file_path picked) = Inr [104, 105]"
  by (simp add: picked_eq other_env_def)

lemma shown_eq:
  "shown = \<lparr>file_path = demo_path, current_b64 = [84, 87, 70, 117], convert_btn = Normal,
           copy_btn = Normal, save_btn = Normal, output_text = [84, 87, 70, 117],
           status = Converted 3 4, trace = [AskOpenFilename, ReadFile demo_path]\<rparr>"
  by (simp add: shown_def convert_file_read[OF read_demo] b64_text_Man) (simp add: picked_eq)

lemma shown_other_eq:
  "shown_other = \<lparr>file_path = demo_path, current_b64 = [97, 71, 107, 61], convert_btn = Normal,
           copy_btn = Normal, save_btn = Normal, output_text = [97, 71, 107, 61],
           status = Converted 2 4, trace = [AskOpenFilename, ReadFile demo_path]\<rparr>"
  by (simp add: shown_other_def convert_file_read[OF read_other] b64_text_hi) (simp add: picked_eq)

lemma read_broken: "read_file broken_env p = Inl (OSError 2)"
  by (simp add: broken_env_def)

lemmas convert_broken = convert_file_fail [OF read_broken]

lemma run_demo_steps:
  "current_b64 (fst (run demo_steps (init, None))) = [84, 87, 70, 117] \<and>
   snd (run demo_steps (init, None)) = Some [77, 97, 110]"
  by (simp add: demo_steps_def picked_def[symmetric] shown_def[symmetric] convert_broken
        copy_frame save_frame read_broken read_demo shown_eq)

section \<open>The claims\<close>

text \<open>
  C1. For every file whose bytes are read, \<^verbatim>\<open>convert_file\<close> returns and sets
  \<^verbatim>\<open>current_b64\<close> to the standard Base64 encoding of those bytes as text: the stored
  string is what the UTF-8 decoder makes of the encoder's bytes, one character per byte.
  The display shows the same text.
\<close>

theorem convert_file_stores_b64encode:
  assumes "read_file w (file_path s) = Inr data"
  shows "fst (convert_file w s) = Inr () \<and>
         utf8_decode (b64encode data) = Inr (current_b64 (snd (convert_file w s))) \<and>
         current_b64 (snd (convert_file w s)) = map unat (b64encode data) \<and>
         output_text (snd (convert_file w s)) = map unat (b64encode data)"
  using assms
  by (simp add: convert_file_read utf8_decode_b64encode) (simp add: b64_text_def)

theorem convert_file_stores_b64encode_witness:
  "read_file demo_env (file_path picked) = Inr [77, 97, 110] \<and>
   current_b64 (snd (convert_file demo_env picked)) = [84, 87, 70, 117]"
proof -
  have h: "read_file demo_env (file_path picked) = Inr [77, 97, 110]"
    by (rule read_demo)
  from convert_file_stores_b64encode [OF h]
  have "current_b64 (snd (convert_file demo_env picked)) = map unat (b64encode [77, 97, 110])"
    by blast
  then have "current_b64 (snd (convert_file demo_env picked)) = [84, 87, 70, 117]"
    unfolding b64encode_Man by simp
  with h show ?thesis by (rule conjI)
qed

text \<open>
  C2. In every state reached from the initial one by any sequence of browse, convert
  (whether it succeeds or fails), copy and save calls, the stored encoded text is
  empty or is the Base64 text of the bytes of the file most recently converted with
  success.
\<close>

theorem stored_text_empty_or_last_encoding:
  "current_b64 (fst (run steps (init, None))) = [] \<or>
   (\<exists>data. snd (run steps (init, None)) = Some data \<and>
            current_b64 (fst (run steps (init, None))) = b64_text data)"
proof -
  obtain s g where r: "run steps (init, None) = (s, g)"
    by (cases "run steps (init, None)")
  have "form_inv (s, g)"
    using form_inv_reachable [of steps] by (simp add: r)
  then show ?thesis
    by (cases g) (simp_all add: r form_inv_def)
qed

theorem stored_text_empty_or_last_encoding_witness:
  "snd (run demo_steps (init, None)) = Some [77, 97, 110] \<and>
   current_b64 (fst (run demo_steps (init, None))) = b64_text [77, 97, 110] \<and>
   current_b64 (fst (run demo_steps (init, None))) \<noteq> []"
proof -
  have ne: "current_b64 (fst (run demo_steps (init, None))) \<noteq> []"
    and g: "snd (run demo_steps (init, None)) = Some [77, 97, 110]"
    by (simp_all add: run_demo_steps)
  from stored_text_empty_or_last_encoding [of demo_steps] ne
  have "\<exists>data. snd (run demo_steps (init, None)) = Some data \<and>
               current_b64 (fst (run demo_steps (init, None))) = b64_text data"
    by blast
  with g have "current_b64 (fst (run demo_steps (init, None))) = b64_text [77, 97, 110]"
    by auto
  with g ne show ?thesis by blast
qed

text \<open>
  C3. After every conversion, that is every \<^verbatim>\<open>convert_file\<close> call whose file is
  read, the text display holds exactly the stored encoded string, and the copy and
  the save button are enabled.
\<close>

theorem convert_file_shows_and_enables:
  assumes "read_file w (file_path s) = Inr data"
  shows "output_text (snd (convert_file w s)) = current_b64 (snd (convert_file w s)) \<and>
         copy_btn (snd (convert_file w s)) = Normal \<and>
         save_btn (snd (convert_file w s)) = Normal"
  using assms by (simp add: convert_file_read)

theorem convert_file_shows_and_enables_witness:
  "read_file demo_env (file_path picked) = Inr [77, 97, 110] \<and>
   copy_btn picked = Disabled \<and> save_btn picked = Disabled \<and>
   output_text (snd (convert_file demo_env picked)) =
     current_b64 (snd (convert_file demo_env picked)) \<and>
   copy_btn (snd (convert_file demo_env picked)) = Normal \<and>
   save_btn (snd (convert_file demo_env picked)) = Normal"
proof -
  have h: "read_file demo_env (file_path picked) = Inr [77, 97, 110]"
    by (rule read_demo)
  have before: "copy_btn picked = Disabled \<and> save_btn picked = Disabled"
    by (simp add: picked_eq)
  from h before convert_file_shows_and_enables [OF h] show ?thesis
    by blast
qed

text \<open>
  C4. \<^verbatim>\<open>copy_to_clipboard\<close> and \<^verbatim>\<open>save_base64\<close> leave the stored encoded string, the
  file path and the state of the three buttons as they found them, in every state
  and whatever the clipboard, the save dialog and the file system answer. The display
  is left alone too. Of the form, only the status line is written.
\<close>

theorem copy_and_save_frame:
  "current_b64 (snd (copy_to_clipboard w s)) = current_b64 s \<and>
   file_path (snd (copy_to_clipboard w s)) = file_path s \<and>
   convert_btn (snd (copy_to_clipboard w s)) = convert_btn s \<and>
   copy_btn (snd (copy_to_clipboard w s)) = copy_btn s \<and>
   save_btn (snd (copy_to_clipboard w s)) = save_btn s \<and>
   output_text (snd (copy_to_clipboard w s)) = output_text s \<and>
   current_b64 (snd (save_base64 w s)) = current_b64 s \<and>
   file_path (snd (save_base64 w s)) = file_path s \<and>
   convert_btn (snd (save_base64 w s)) = convert_btn s \<and>
   copy_btn (snd (save_base64 w s)) = copy_btn s \<and>
   save_btn (snd (save_base64 w s)) = save_btn s \<and>
   output_text (snd (save_base64 w s)) = output_text s"
  using copy_frame [of w s] save_frame [of w s] by blast

theorem copy_and_save_frame_witness:
  "current_b64 (snd (copy_to_clipboard demo_env shown)) = [84, 87, 70, 117] \<and>
   current_b64 (snd (save_base64 broken_env shown)) = [84, 87, 70, 117] \<and>
   status (snd (copy_to_clipboard demo_env shown)) = Copied"
proof -
  have "current_b64 shown = [84, 87, 70, 117]"
    by (simp add: shown_eq)
  moreover have "status (snd (copy_to_clipboard demo_env shown)) = Copied"
    by (simp add: copy_to_clipboard_def demo_env_def emit_def update_status_def shown_eq)
  ultimately show ?thesis
    using copy_and_save_frame [of demo_env shown] copy_and_save_frame [of broken_env shown]
    by simp
qed

text \<open>
  C5. \<^verbatim>\<open>convert_file\<close> and \<^verbatim>\<open>save_base64\<close> always return: whatever exception reading
  the input file or writing the output file raises is caught inside the handler. The
  failure shows in nothing but the error box: the form is as before, and the calls made
  are the attempt itself and \<^verbatim>\<open>showerror\<close> with the exception.
\<close>

theorem convert_and_save_catch:
  "fst (convert_file w s) = Inr () \<and>
   fst (save_base64 w s) = Inr () \<and>
   (read_file w (file_path s) = Inl e \<longrightarrow>
      snd (convert_file w s) =
        s\<lparr>trace := trace s @ [ReadFile (file_path s), ShowError ConversionError e]\<rparr>) \<and>
   (current_b64 s \<noteq> [] \<and> asksaveasfilename w \<noteq> [] \<and>
    write_file w (asksaveasfilename w) (current_b64 s) = Some e' \<longrightarrow>
      snd (save_base64 w s) =
        s\<lparr>trace := trace s @ [AskSaveAsFilename,
               WriteFile (asksaveasfilename w) (current_b64 s), ShowError SaveError e']\<rparr>)"
  by (simp add: convert_file_returns save_base64_returns convert_file_fail save_base64_fail)

theorem convert_and_save_catch_witness:
  "read_file broken_env (file_path shown) = Inl (OSError 2) \<and>
   current_b64 shown \<noteq> [] \<and> asksaveasfilename broken_env \<noteq> [] \<and>
   write_file broken_env (asksaveasfilename broken_env) (current_b64 shown) = Some (OSError 13) \<and>
   convert_file broken_env shown =
     (Inr (), shown\<lparr>trace := trace shown @
                 [ReadFile (file_path shown), ShowError ConversionError (OSError 2)]\<rparr>) \<and>
   save_base64 broken_env shown =
     (Inr (), shown\<lparr>trace := trace shown @ [AskSaveAsFilename,
                 WriteFile (asksaveasfilename broken_env) (current_b64 shown),
                 ShowError SaveError (OSError 13)]\<rparr>)"
proof -
  have r: "read_file broken_env (file_path shown) = Inl (OSError 2)"
    by (rule read_broken)
  have b: "current_b64 shown \<noteq> []"
    by (simp add: shown_eq)
  have d: "asksaveasfilename broken_env \<noteq> []"
    by (simp add: broken_env_def)
  have x: "write_file broken_env (asksaveasfilename broken_env) (current_b64 shown) = Some (OSError 13)"
    by (simp add: broken_env_def)
  note c = convert_and_save_catch [of broken_env shown "OSError 2" "OSError 13"]
  from c r have "convert_file broken_env shown =
     (Inr (), shown\<lparr>trace := trace shown @
                 [ReadFile (file_path shown), ShowError ConversionError (OSError 2)]\<rparr>)"
    by (metis prod.collapse)
  moreover from c b d x have "save_base64 broken_env shown =
     (Inr (), shown\<lparr>trace := trace shown @ [AskSaveAsFilename,
                 WriteFile (asksaveasfilename broken_env) (current_b64 shown),
                 ShowError SaveError (OSError 13)]\<rparr>)"
    by (metis prod.collapse)
  ultimately show ?thesis using r b d x by blast
qed

text \<open>
  C6. Selecting a file enables the convert button: when the open dialog returns a
  path that is not empty, \<^verbatim>\<open>browse_file\<close> stores it and leaves the convert button
  enabled. And in every state a run reaches, the convert button is enabled only if
  the path field is not empty.
\<close>

theorem convert_btn_enabled_by_browse:
  "(askopenfilename w \<noteq> [] \<longrightarrow>
      convert_btn (snd (browse_file w s)) = Normal \<and>
      file_path (snd (browse_file w s)) = askopenfilename w) \<and>
   (convert_btn (fst (run steps (init, None))) = Normal \<longrightarrow>
      file_path (fst (run steps (init, None))) \<noteq> [])"
proof -
  obtain s' g where r: "run steps (init, None) = (s', g)"
    by (cases "run steps (init, None)")
  have "form_inv (s', g)"
    using form_inv_reachable [of steps] by (simp add: r)
  then have "convert_btn s' = Normal \<longrightarrow> file_path s' \<noteq> []"
    by (simp add: form_inv_def)
  then show ?thesis
    by (simp add: r browse_file_picked)
qed

theorem convert_btn_enabled_by_browse_witness:
  "askopenfilename demo_env \<noteq> [] \<and>
   convert_btn init = Disabled \<and>
   convert_btn (snd (browse_file demo_env init)) = Normal \<and>
   file_path (snd (browse_file demo_env init)) = askopenfilename demo_env \<and>
   convert_btn (fst (run [(Browse, demo_env)] (init, None))) = Normal \<and>
   file_path (fst (run [(Browse, demo_env)] (init, None))) \<noteq> []"
proof -
  have a: "askopenfilename demo_env \<noteq> []"
    by (simp add: demo_env_def demo_path_def)
  have i: "convert_btn init = Disabled"
    by (simp add: init_def)
  note c = convert_btn_enabled_by_browse [of demo_env init "[(Browse, demo_env)]"]
  from c a have n: "convert_btn (snd (browse_file demo_env init)) = Normal"
    and p: "file_path (snd (browse_file demo_env init)) = askopenfilename demo_env"
    by blast+
  from n have n': "convert_btn (fst (run [(Browse, demo_env)] (init, None))) = Normal"
    by simp
  with c have "file_path (fst (run [(Browse, demo_env)] (init, None))) \<noteq> []"
    by blast
  with a i n p n' show ?thesis by blast
qed

text \<open>
  C7. A conversion replaces the encoded text wholesale: from any two states, whatever
  text they store and display, converting files with the same bytes leaves the same
  stored string and the same display.
\<close>

theorem convert_file_forgets_previous_text:
  assumes "read_file w1 (file_path s1) = Inr data"
    and "read_file w2 (file_path s2) = Inr data"
  shows "current_b64 (snd (convert_file w1 s1)) = current_b64 (snd (convert_file w2 s2)) \<and>
         output_text (snd (convert_file w1 s1)) = output_text (snd (convert_file w2 s2))"
  using assms by (simp add: convert_file_read)

theorem convert_file_forgets_previous_text_witness:
  "read_file demo_env (file_path picked) = Inr [77, 97, 110] \<and>
   read_file demo_env (file_path shown_other) = Inr [77, 97, 110] \<and>
   current_b64 picked = [] \<and> current_b64 shown_other = [97, 71, 107, 61] \<and>
   current_b64 (snd (convert_file demo_env picked)) =
     current_b64 (snd (convert_file demo_env shown_other)) \<and>
   output_text (snd (convert_file demo_env picked)) =
     output_text (snd (convert_file demo_env shown_other))"
proof -
  have h1: "read_file demo_env (file_path picked) = Inr [77, 97, 110]"
    by (rule read_demo)
  have h2: "read_file demo_env (file_path shown_other) = Inr [77, 97, 110]"
    by (simp add: shown_other_eq demo_env_def)
  have before: "current_b64 picked = [] \<and> current_b64 shown_other = [97, 71, 107, 61]"
    by (simp add: picked_eq shown_other_eq)
  from h1 h2 before convert_file_forgets_previous_text [OF h1 h2] show ?thesis
    by blast
qed

text \<open>
  C8. When \<^verbatim>\<open>convert_file\<close> fails, the file being impossible to open or to read, the
  stored encoded string, the display and the states of the copy and the save button
  are as they were before the call.
\<close>

theorem convert_file_failure_keeps_text:
  assumes "read_file w (file_path s) = Inl e"
  shows "current_b64 (snd (convert_file w s)) = current_b64 s \<and>
         output_text (snd (convert_file w s)) = output_text s \<and>
         copy_btn (snd (convert_file w s)) = copy_btn s \<and>
         save_btn (snd (convert_file w s)) = save_btn s"
  using assms by (simp add: convert_file_fail)

theorem convert_file_failure_keeps_text_witness:
  "read_file broken_env (file_path shown) = Inl (OSError 2) \<and>
   current_b64 (snd (convert_file broken_env shown)) = [84, 87, 70, 117] \<and>
   output_text (snd (convert_file broken_env shown)) = [84, 87, 70, 117] \<and>
   copy_btn (snd (convert_file broken_env shown)) = Normal \<and>
   save_btn (snd (convert_file broken_env shown)) = Normal"
proof -
  have h: "read_file broken_env (file_path shown) = Inl (OSError 2)"
    by (rule read_broken)
  have before: "current_b64 shown = [84, 87, 70, 117] \<and> output_text shown = [84, 87, 70, 117] \<and>
                copy_btn shown = Normal \<and> save_btn shown = Normal"
    by (simp add: shown_eq)
  from h before convert_file_failure_keeps_text [OF h] show ?thesis
    by simp
qed

text \<open>
  C9. While the stored encoded string is empty, \<^verbatim>\<open>copy_to_clipboard\<close> and
  \<^verbatim>\<open>save_base64\<close> return at once and leave the whole state as it is, the record of
  outside calls included: nothing is written to the clipboard, the status line keeps
  its text, no save dialog opens and no file is written.
\<close>

theorem copy_and_save_noop_when_empty:
  assumes "current_b64 s = []"
  shows "copy_to_clipboard w s = (Inr (), s) \<and> save_base64 w s = (Inr (), s)"
  using assms by (simp add: copy_to_clipboard_def save_base64_def)

theorem copy_and_save_noop_when_empty_witness:
  "current_b64 picked = [] \<and>
   copy_to_clipboard broken_env picked = (Inr (), picked) \<and>
   save_base64 broken_env picked = (Inr (), picked)"
proof -
  have h: "current_b64 picked = []"
    by (simp add: picked_eq)
  from h copy_and_save_noop_when_empty [OF h, of broken_env] show ?thesis
    by (rule conjI)
qed

text \<open>
  C10. The stored encoded string round-trips: whatever bytes are read from the input
  file, standard Base64 decoding of the string that \<^verbatim>\<open>convert_file\<close> stores gives
  those bytes back.
\<close>

theorem stored_text_decodes_to_file_bytes:
  assumes "read_file w (file_path s) = Inr data"
  shows "b64decode (current_b64 (snd (convert_file w s))) = Some data"
  using assms by (simp add: convert_file_read b64_text_def b64decode_b64encode)

theorem stored_text_decodes_to_file_bytes_witness:
  "read_file other_env (file_path picked) = Inr [104, 105] \<and>
   current_b64 (snd (convert_file other_env picked)) = [97, 71, 107, 61] \<and>
   b64decode [97, 71, 107, 61] = Some [104, 105]"
proof -
  have h: "read_file other_env (file_path picked) = Inr [104, 105]"
    by (rule read_other)
  have t: "current_b64 (snd (convert_file other_env picked)) = [97, 71, 107, 61]"
    using shown_other_eq by (simp add: shown_other_def)
  from stored_text_decodes_to_file_bytes [OF h]
  have "b64decode [97, 71, 107, 61] = Some [104, 105]"
    unfolding t .
  with h t show ?thesis by blast
qed

end
